theory Spec2Isabelle
  imports Complex_Main
begin

section \<open>The worker of distributed_clients/browser_client.py\<close>

text \<open>
  The class \<open>BrowserClient\<close> registers with a dispatcher, polls it for work with an
  adaptive cadence, runs one assigned request through a (simulated) executor and reports
  chunks, a completion or an error back.

  Modelling choices:
  \<^item> the object is a record, every method takes the record and returns the updated one;
  \<^item> Python's numbers for intervals, latencies and rates are exact rationals (\<open>rat\<close>):
    rounding of binary floating point is not modelled;
  \<^item> what the worker does to the outside (log lines, HTTP posts, sleeps) is a trace of
    events, threaded through the methods and extended at its end;
  \<^item> what the outside answers (HTTP status, a raised transport exception, the clock, a
    cancellation) is an input of the method that asks for it;
  \<^item> an exception that leaves a method is a returned value \<open>Some e\<close>.
\<close>

subsection \<open>State\<close>

text \<open>
  The fields of \<open>__init__\<close> that the poll, process and report methods read or write.
  \<open>api_base_url\<close>, \<open>client_id\<close>, the aiohttp session object, \<open>last_heartbeat\<close> and
  \<open>last_poll_time\<close> are never read by them and are left out.
\<close>

record browser_client =
  session_id :: "string option"
  max_concurrent :: int
  current_load :: int
  running :: bool
  total_requests :: int
  successful_requests :: int
  total_response_time :: rat
  base_poll_interval :: rat
  current_poll_interval :: rat

definition init_client :: "int \<Rightarrow> browser_client" where
  "init_client mc =
     \<lparr> session_id = None, max_concurrent = mc, current_load = 0, running = False,
       total_requests = 0, successful_requests = 0, total_response_time = 0,
       base_poll_interval = 5, current_poll_interval = 5 \<rparr>"

text \<open>
  \<open>if not self.session_id\<close>: Python's truth value of an \<open>Optional[str]\<close>; \<open>None\<close> and the
  empty string are both false.
\<close>

definition has_session :: "browser_client \<Rightarrow> bool" where
  "has_session c = (case session_id c of None \<Rightarrow> False | Some s \<Rightarrow> s \<noteq> [])"

subsection \<open>Exceptions, requests, reports, events\<close>

text \<open>
  \<open>KeyError\<close> is an \<open>Exception\<close>, caught by every \<open>except Exception\<close>;
  \<open>CancelledError\<close> is a \<open>BaseException\<close> and passes through them.
\<close>

datatype exn = KeyError string | RegistrationFailed | CancelledError

fun is_Exception :: "exn \<Rightarrow> bool" where
  "is_Exception CancelledError = False"
| "is_Exception _ = True"

text \<open>\<open>str(KeyError(k))\<close> is the key between apostrophes.\<close>

definition key_error_str :: "string \<Rightarrow> string" where
  "key_error_str k = [CHR 0x27] @ k @ [CHR 0x27]"

fun exn_str :: "exn \<Rightarrow> string" where
  "exn_str (KeyError k) = key_error_str k"
| "exn_str RegistrationFailed = ''Registration failed''"
| "exn_str CancelledError = []"

text \<open>
  The dictionary \<open>request_info\<close>: a key that is missing is \<open>None\<close>. Reading a missing key
  with \<open>[...]\<close> raises \<open>KeyError\<close>, reading it with \<open>.get\<close> gives the default.
\<close>

record request_info =
  request_id :: "string option"
  model :: "string option"
  messages :: "(string \<times> string) list option"
  stream :: "bool option"

text \<open>The three payloads of \<open>send_chunk\<close>, \<open>send_completion\<close> and \<open>send_error\<close>.\<close>

datatype report =
    Chunk string string nat
  | Complete string string rat
  | Error string string string

text \<open>
  What the worker does to the outside. A log line carries its level (\<open>Failure\<close> is
  \<open>logger.error\<close>) and the fixed part of its message. A post to \<open>poll.php\<close> carries the
  load, the average response time and the success rate (its \<open>last_poll\<close> field is a
  clock reading and is left out); a post to \<open>response.php\<close> carries a report.
\<close>

datatype log_level = Info | Warning | Failure

datatype event =
    Log log_level string
  | PostPoll int rat rat
  | PostResponse report
  | Sleep rat

text \<open>The answer of one HTTP exchange: a status, or an exception (a timeout is one).\<close>

datatype http_result = Status int | Transport_Raised

text \<open>The reports posted so far, in order, and how many there are.\<close>

fun reports_of :: "event list \<Rightarrow> report list" where
  "reports_of [] = []"
| "reports_of (PostResponse r # es) = r # reports_of es"
| "reports_of (_ # es) = reports_of es"

text \<open>
  The dispatcher's answers to the reports: \<open>net k\<close> answers the \<open>k\<close>-th post to
  \<open>response.php\<close> (counted from 0 over the whole trace).
\<close>

type_synonym network = "nat \<Rightarrow> http_result"

subsection \<open>Metrics\<close>

definition get_average_response_time :: "browser_client \<Rightarrow> rat" where
  "get_average_response_time c =
     (if successful_requests c = 0 then 0
      else total_response_time c / of_int (successful_requests c))"

definition get_success_rate :: "browser_client \<Rightarrow> rat" where
  "get_success_rate c =
     (if total_requests c = 0 then 100
      else (of_int (successful_requests c) / of_int (total_requests c)) * 100)"

subsection \<open>Adaptive interval\<close>

definition update_poll_interval :: "browser_client \<Rightarrow> browser_client" where
  "update_poll_interval c =
     (if current_load c \<ge> max_concurrent c then
        c\<lparr>current_poll_interval := min (current_poll_interval c * (3 / 2)) 30\<rparr>
      else if current_load c = 0 then
        c\<lparr>current_poll_interval := max (current_poll_interval c * (4 / 5)) 1\<rparr>
      else
        c\<lparr>current_poll_interval := base_poll_interval c\<rparr>)"

subsection \<open>Reports\<close>

text \<open>
  \<open>send_response\<close>: without a session it logs a warning and returns; with one it posts,
  and logs when the answer is not 200 or the exchange raised (the exception is caught
  there). Like every method it returns the object next to the trace.
\<close>

definition send_response ::
  "network \<Rightarrow> browser_client \<Rightarrow> event list \<Rightarrow> report \<Rightarrow> browser_client \<times> event list" where
  "send_response net c tr response_data =
     (if \<not> has_session c then (c, tr @ [Log Warning ''No session ID, cannot send response''])
      else
        (case net (length (reports_of tr)) of
           Status st \<Rightarrow>
             (if st \<noteq> 200 then (c, tr @ [PostResponse response_data, Log Warning ''Failed to send response''])
              else (c, tr @ [PostResponse response_data]))
         | Transport_Raised \<Rightarrow>
             (c, tr @ [PostResponse response_data, Log Failure ''Error sending response''])))"

definition send_chunk ::
  "network \<Rightarrow> browser_client \<Rightarrow> event list \<Rightarrow> string \<Rightarrow> string \<Rightarrow> nat \<Rightarrow> browser_client \<times> event list" where
  "send_chunk net c tr rid content sequence = send_response net c tr (Chunk rid content sequence)"

definition send_completion ::
  "network \<Rightarrow> browser_client \<Rightarrow> event list \<Rightarrow> string \<Rightarrow> string \<Rightarrow> rat \<Rightarrow> browser_client \<times> event list" where
  "send_completion net c tr rid full_response response_time_ms =
     send_response net c tr (Complete rid full_response response_time_ms)"

definition send_error ::
  "network \<Rightarrow> browser_client \<Rightarrow> event list \<Rightarrow> string \<Rightarrow> string \<Rightarrow> browser_client \<times> event list" where
  "send_error net c tr rid error_message =
     send_response net c tr (Error rid error_message ''processing_error'')"

subsection \<open>The simulated executor\<close>

text \<open>
  How \<open>simulate_browser_processing\<close> ends: it returns, it raises an \<open>Exception\<close>, or a
  cancellation is delivered while it is suspended in one of its own delays.
\<close>

datatype exec_outcome = Returned | Raised exn | Cancelled

definition chunks :: "string list" where
  "chunks = [''Hello'', '' there'', ''! This'', '' is'', '' a'', '' simulated'', '' response'', ''.'']"

text \<open>
  The loop \<open>for i, chunk in enumerate(chunks)\<close>: each chunk is sent on its own, then the
  loop sleeps 0.1 s. \<open>cancel = Some k\<close>: the task is cancelled during the sleep that
  follows chunk \<open>k\<close> (a \<open>k\<close> past the last chunk cancels nothing); without
  streaming, any \<open>Some k\<close> cancels the task during its one sleep of 1 s.
  \<open>request_info['request_id']\<close> is read in every round.
\<close>

fun stream_loop ::
  "network \<Rightarrow> browser_client \<Rightarrow> request_info \<Rightarrow> nat option \<Rightarrow> (nat \<times> string) list \<Rightarrow> event list
     \<Rightarrow> browser_client \<times> event list \<times> exec_outcome" where
  "stream_loop net c req cancel [] tr = (c, tr, Returned)"
| "stream_loop net c req cancel ((i, chunk) # rest) tr =
     (case request_id req of
        None \<Rightarrow> (c, tr, Raised (KeyError ''request_id''))
      | Some rid \<Rightarrow>
          (case send_chunk net c tr rid chunk i of
             (c1, tr1) \<Rightarrow>
               (if cancel = Some i then (c1, tr1, Cancelled)
                else stream_loop net c1 req cancel rest (tr1 @ [Sleep (1 / 10)]))))"

definition simulate_browser_processing ::
  "network \<Rightarrow> browser_client \<Rightarrow> event list \<Rightarrow> request_info \<Rightarrow> nat option
     \<Rightarrow> browser_client \<times> event list \<times> exec_outcome" where
  "simulate_browser_processing net c tr req cancel =
     (case model req of
        None \<Rightarrow> (c, tr, Raised (KeyError ''model''))
      | Some m \<Rightarrow>
          (case messages req of
             None \<Rightarrow> (c, tr, Raised (KeyError ''messages''))
           | Some ms \<Rightarrow>
               (let is_streaming = (case stream req of None \<Rightarrow> True | Some b \<Rightarrow> b);
                    tr1 = tr @ [Log Info ''Simulating processing for model'']
                in if is_streaming then stream_loop net c req cancel (List.enumerate 0 chunks) tr1
                   else if cancel \<noteq> None then (c, tr1, Cancelled)
                   else (c, tr1 @ [Sleep 1], Returned))))"

subsection \<open>Processing one request\<close>

text \<open>The three groups of assignments in \<open>process_request\<close>.\<close>

definition begin_request :: "browser_client \<Rightarrow> browser_client" where
  "begin_request c = c\<lparr>current_load := current_load c + 1, total_requests := total_requests c + 1\<rparr>"

definition record_success :: "browser_client \<Rightarrow> rat \<Rightarrow> browser_client" where
  "record_success c response_time =
     c\<lparr>successful_requests := successful_requests c + 1,
       total_response_time := total_response_time c + response_time\<rparr>"

definition release :: "browser_client \<Rightarrow> browser_client" where
  "release c = c\<lparr>current_load := current_load c - 1\<rparr>"

text \<open>
  \<open>t0\<close> and \<open>t1\<close> are the two readings of \<open>time.time()\<close>. The \<open>finally\<close> clause is the
  \<open>release\<close> applied in each of the three branches. Two exceptions leave the method:
  a cancellation, which \<open>except Exception\<close> does not catch, and the \<open>KeyError\<close> of a
  missing \<open>request_id\<close>, raised before the \<open>try\<close> and before any assignment.
\<close>

definition process_request ::
  "network \<Rightarrow> browser_client \<Rightarrow> event list \<Rightarrow> request_info \<Rightarrow> rat \<Rightarrow> rat \<Rightarrow> nat option
     \<Rightarrow> browser_client \<times> event list \<times> exn option" where
  "process_request net c tr req t0 t1 cancel =
     (case request_id req of
        None \<Rightarrow> (c, tr, Some (KeyError ''request_id''))
      | Some rid \<Rightarrow>
          (let tr1 = tr @ [Log Info ''Processing request''];
               c1 = begin_request c
           in case simulate_browser_processing net c1 tr1 req cancel of
                (c2, tr2, Returned) \<Rightarrow>
                  (let response_time = (t1 - t0) * 1000;
                       c3 = record_success c2 response_time
                   in case send_completion net c3 tr2 rid ''Simulated response'' response_time of
                        (c4, tr4) \<Rightarrow> (release c4, tr4, None))
              | (c2, tr2, Raised e) \<Rightarrow>
                  (case send_error net c2 (tr2 @ [Log Failure ''Failed to process request''])
                          rid (exn_str e) of
                     (c3, tr3) \<Rightarrow> (release c3, tr3, None))
              | (c2, tr2, Cancelled) \<Rightarrow> (release c2, tr2, Some CancelledError)))"

subsection \<open>Polling\<close>

text \<open>
  The JSON body of a 200 answer of \<open>poll.php\<close>: the truth value of
  \<open>data.get('has_request')\<close>, the key \<open>request\<close> and the key \<open>poll_interval\<close> (a number,
  as the wire contract says). The answer itself: the exchange raised (transport failure,
  timeout, undecodable body), or a status with a body that is read only when the status
  is 200.
\<close>

record poll_body =
  has_request :: bool
  request :: "request_info option"
  poll_interval :: "rat option"

datatype poll_result = Poll_Raised | Poll_Reply int poll_body

text \<open>\<open>data.get('poll_interval', self.base_poll_interval)\<close>, capped at 30.\<close>

definition adopt_recommended :: "browser_client \<Rightarrow> rat option \<Rightarrow> browser_client" where
  "adopt_recommended c r =
     (let recommended_interval = (case r of None \<Rightarrow> base_poll_interval c | Some v \<Rightarrow> v)
      in c\<lparr>current_poll_interval := min recommended_interval 30\<rparr>)"

definition poll_for_requests ::
  "network \<Rightarrow> browser_client \<Rightarrow> event list \<Rightarrow> poll_result \<Rightarrow> rat \<Rightarrow> rat \<Rightarrow> nat option
     \<Rightarrow> browser_client \<times> event list \<times> exn option" where
  "poll_for_requests net c tr pr t0 t1 cancel =
     (if \<not> has_session c then (c, tr @ [Log Warning ''No session ID, skipping poll''], None)
      else
        (let tr1 = tr @ [PostPoll (current_load c) (get_average_response_time c) (get_success_rate c)]
         in case pr of
              Poll_Raised \<Rightarrow> (c, tr1 @ [Log Failure ''Polling error''], None)
            | Poll_Reply st data \<Rightarrow>
                (if st = 200 then
                   (if has_request data then
                      (case request data of
                         None \<Rightarrow> (c, tr1 @ [Log Failure ''Polling error''], None)
                       | Some request_info \<Rightarrow>
                           (case process_request net c tr1 request_info t0 t1 cancel of
                              (c', tr', None) \<Rightarrow> (c', tr', None)
                            | (c', tr', Some e) \<Rightarrow>
                                (if is_Exception e then (c', tr' @ [Log Failure ''Polling error''], None)
                                 else (c', tr', Some e))))
                    else (adopt_recommended c (poll_interval data), tr1, None))
                 else (c, tr1 @ [Log Warning ''Poll failed''], None))))"

text \<open>
  One round of \<open>while self.running\<close>: the interval is recomputed, the poll is made, the
  loop sleeps. An \<open>Exception\<close> that reaches the loop is logged and followed by a sleep of
  5 s; a cancellation ends the loop.
\<close>

record round_input =
  poll_answer :: poll_result
  clock_start :: rat
  clock_end :: rat
  cancel_at :: "nat option"
  stop_called :: bool

definition polling_round ::
  "network \<Rightarrow> browser_client \<Rightarrow> event list \<Rightarrow> round_input \<Rightarrow> browser_client \<times> event list \<times> exn option" where
  "polling_round net c tr inp =
     (let c1 = update_poll_interval c
      in case poll_for_requests net c1 tr (poll_answer inp) (clock_start inp) (clock_end inp) (cancel_at inp) of
           (c2, tr2, None) \<Rightarrow> (c2, tr2 @ [Sleep (current_poll_interval c2)], None)
         | (c2, tr2, Some e) \<Rightarrow>
             (if is_Exception e then (c2, tr2 @ [Log Failure ''Error in polling loop'', Sleep 5], None)
              else (c2, tr2, Some e)))"

text \<open>
  The loop over the rounds the outside provides: it stops when \<open>running\<close> is false at the
  top of a round (\<open>stop()\<close> was called during the round before), or when a cancellation
  leaves a round.
\<close>

fun polling_loop ::
  "network \<Rightarrow> browser_client \<Rightarrow> event list \<Rightarrow> round_input list \<Rightarrow> browser_client \<times> event list \<times> exn option" where
  "polling_loop net c tr [] = (c, tr, None)"
| "polling_loop net c tr (inp # inps) =
     (if \<not> running c then (c, tr, None)
      else
        (case polling_round net c tr inp of
           (c', tr', None) \<Rightarrow>
             polling_loop net (if stop_called inp then c'\<lparr>running := False\<rparr> else c') tr' inps
         | (c', tr', Some e) \<Rightarrow> (c', tr', Some e)))"

text \<open>
  \<open>register\<close> and \<open>start\<close>: a 200 answer stores its \<open>session_id\<close> (JSON \<open>null\<close> is \<open>None\<close>);
  anything else raises and the loop is never entered.
\<close>

datatype reg_result = Reg_Raised | Reg_Reply int "string option"

definition register :: "browser_client \<Rightarrow> reg_result \<Rightarrow> exn + browser_client" where
  "register c rr =
     (case rr of
        Reg_Raised \<Rightarrow> Inl RegistrationFailed
      | Reg_Reply st sid \<Rightarrow> (if st = 200 then Inr (c\<lparr>session_id := sid\<rparr>) else Inl RegistrationFailed))"

definition start :: "browser_client \<Rightarrow> reg_result \<Rightarrow> exn + browser_client" where
  "start c rr = (case register c rr of Inl e \<Rightarrow> Inl e | Inr c' \<Rightarrow> Inr (c'\<lparr>running := True\<rparr>))"

subsection \<open>The specification's formulas\<close>

text \<open>
  The adaptive interval as the specification words it: at or over the cap the interval
  grows by the factor 1.5 up to 30, at load zero it shrinks by the factor 0.8 down to 1,
  in between it is the base interval.
\<close>

definition spec_next_interval :: "rat \<Rightarrow> int \<Rightarrow> int \<Rightarrow> rat \<Rightarrow> rat" where
  "spec_next_interval i load maxc base =
     (if load \<ge> maxc then min (i * 1.5) 30
      else if load = 0 then max (i * 0.8) 1
      else base)"

text \<open>The success rate as the specification words it.\<close>

definition spec_success_rate :: "int \<Rightarrow> int \<Rightarrow> rat" where
  "spec_success_rate succ tot =
     (if tot = 0 then 100 else 100 * of_int succ / of_int tot)"

subsection \<open>Concrete inputs\<close>

text \<open>
  A worker built with the default cap of 5 and registered under the session \<open>s1\<close>, and a
  dispatcher that acknowledges every report.
\<close>

definition client0 :: browser_client where
  "client0 = (init_client 5)\<lparr>session_id := Some ''s1'', running := True\<rparr>"

definition net_ok :: network where
  "net_ok k = Status 200"

text \<open>A registered worker's well-formed streaming request, and one whose \<open>model\<close> key is missing.\<close>

definition req0 :: request_info where
  "req0 = \<lparr>request_id = Some ''r1'', model = Some ''m'', messages = Some [(''user'', ''hi'')],
            stream = Some True\<rparr>"

definition req_no_model :: request_info where
  "req_no_model = \<lparr>request_id = Some ''r2'', model = None, messages = Some [(''user'', ''hi'')],
                    stream = Some True\<rparr>"

subsection \<open>Reading reports\<close>

text \<open>
  What the worker does to the outside apart from logging: the posts and the sleeps of a
  trace, in order.
\<close>

fun effects_of :: "event list \<Rightarrow> event list" where
  "effects_of [] = []"
| "effects_of (Log l m # es) = effects_of es"
| "effects_of (e # es) = e # effects_of es"

text \<open>The sequence number a chunk report carries.\<close>

definition seq_of :: "report \<Rightarrow> nat option" where
  "seq_of r = (case r of Chunk rid content i \<Rightarrow> Some i | _ \<Rightarrow> None)"

text \<open>A terminal report of the request \<open>rid\<close>: its completion or its error.\<close>

fun is_terminal_for :: "string \<Rightarrow> report \<Rightarrow> bool" where
  "is_terminal_for rid (Complete r full rt) = (r = rid)"
| "is_terminal_for rid (Error r msg ty) = (r = rid)"
| "is_terminal_for rid (Chunk r content i) = False"

text \<open>A worker built with the cap 0 (\<open>--max-concurrent 0\<close>) and registered.\<close>

definition client_cap0 :: browser_client where
  "client_cap0 = (init_client 0)\<lparr>session_id := Some ''s1'', running := True\<rparr>"

text \<open>
  Answers of \<open>poll.php\<close>: no work with a recommended interval, and an assigned request;
  a round that gets the answer, with the clock at 10 s and 12 s, no cancellation and no
  call of \<open>stop()\<close>.
\<close>

definition idle_answer :: "rat option \<Rightarrow> poll_result" where
  "idle_answer r = Poll_Reply 200 \<lparr>has_request = False, request = None, poll_interval = r\<rparr>"

definition assigned_answer :: "request_info \<Rightarrow> poll_result" where
  "assigned_answer req = Poll_Reply 200 \<lparr>has_request = True, request = Some req, poll_interval = None\<rparr>"

definition round0 :: "poll_result \<Rightarrow> round_input" where
  "round0 pr = \<lparr>poll_answer = pr, clock_start = 10, clock_end = 12, cancel_at = None, stop_called = False\<rparr>"

subsection \<open>The assignments of the loop, one at a time\<close>

text \<open>
  The methods above run a whole round. To speak of the states in between (a request in
  flight), the assignments the loop makes to the object are listed as actions, with the
  place in the program where each can happen: at the loop (between requests) the
  interval is recomputed, a recommendation of an idle poll is adopted, or a request
  begins; within a request a success is recorded or the \<open>finally\<close> clause releases the
  load and control is back at the loop. \<open>stop()\<close> can be called anywhere. A poll, and so
  the adoption of a recommendation and the start of a request, needs a session.
\<close>

datatype pc = At_Loop | In_Request

datatype action = Update | Idle "rat option" | Begin | Success rat | Release | Stop

fun step :: "pc \<times> browser_client \<Rightarrow> action \<Rightarrow> (pc \<times> browser_client) option" where
  "step (At_Loop, c) Update = Some (At_Loop, update_poll_interval c)"
| "step (At_Loop, c) (Idle r) = (if has_session c then Some (At_Loop, adopt_recommended c r) else None)"
| "step (At_Loop, c) Begin = (if has_session c then Some (In_Request, begin_request c) else None)"
| "step (In_Request, c) (Success rt) = Some (In_Request, record_success c rt)"
| "step (In_Request, c) Release = Some (At_Loop, release c)"
| "step (p, c) Stop = Some (p, c\<lparr>running := False\<rparr>)"
| "step _ _ = None"

fun run :: "pc \<times> browser_client \<Rightarrow> action list \<Rightarrow> (pc \<times> browser_client) option" where
  "run s [] = Some s"
| "run s (a # as) = (case step s a of None \<Rightarrow> None | Some s' \<Rightarrow> run s' as)"

text \<open>The intervals the dispatcher recommended: in a list of actions, in a poll answer.\<close>

fun recommended :: "action list \<Rightarrow> rat list" where
  "recommended [] = []"
| "recommended (Idle (Some r) # as) = r # recommended as"
| "recommended (_ # as) = recommended as"

fun answer_recommended :: "poll_result \<Rightarrow> rat list" where
  "answer_recommended Poll_Raised = []"
| "answer_recommended (Poll_Reply st body) = (case poll_interval body of None \<Rightarrow> [] | Some r \<Rightarrow> [r])"

section \<open>Properties\<close>

subsection \<open>Reports and the trace\<close>

lemma reports_of_append: "reports_of (xs @ ys) = reports_of xs @ reports_of ys"
  by (induction xs rule: reports_of.induct) simp_all

lemma send_response_state: "fst (send_response net c tr r) = c"
  by (simp add: send_response_def split: http_result.splits)

lemma send_response_reports:
  "has_session c \<Longrightarrow> reports_of (snd (send_response net c tr r)) = reports_of tr @ [r]"
  by (simp add: send_response_def reports_of_append split: http_result.splits)

lemma effects_of_append: "effects_of (xs @ ys) = effects_of xs @ effects_of ys"
  by (induction xs rule: effects_of.induct) simp_all

lemma send_response_effects:
  "has_session c \<Longrightarrow> effects_of (snd (send_response net c tr r)) = effects_of tr @ [PostResponse r]"
  by (simp add: send_response_def effects_of_append split: http_result.splits)

lemma send_response_no_session:
  "\<not> has_session c \<Longrightarrow>
   send_response net c tr r = (c, tr @ [Log Warning ''No session ID, cannot send response''])"
  by (simp add: send_response_def)

subsection \<open>Adaptive interval\<close>

text \<open>
  C6. The recomputation done before each poll is the specification's formula: for every
  prior interval and load, \<open>update_poll_interval\<close> changes the current interval to
  \<open>min (i * 1.5) 30\<close> at or over the cap, to \<open>max (i * 0.8) 1\<close> at load zero and to the
  base interval otherwise, and changes nothing else.
\<close>

theorem update_poll_interval_formula:
  "update_poll_interval c =
     c\<lparr>current_poll_interval :=
         spec_next_interval (current_poll_interval c) (current_load c) (max_concurrent c)
           (base_poll_interval c)\<rparr>"
  by (simp add: update_poll_interval_def spec_next_interval_def)

text \<open>
  Scenario B and the other two branches, evaluated: at load 5 of 5 the interval 10 becomes
  15 and 24 becomes 30; at load 0 the interval 5 becomes 4; at load 2 it is the base 5.
\<close>

theorem update_poll_interval_formula_witness:
  "current_poll_interval (update_poll_interval (client0\<lparr>current_load := 5, current_poll_interval := 10\<rparr>)) = 15
   \<and> current_poll_interval (update_poll_interval (client0\<lparr>current_load := 5, current_poll_interval := 24\<rparr>)) = 30
   \<and> current_poll_interval (update_poll_interval (client0\<lparr>current_load := 0, current_poll_interval := 5\<rparr>)) = 4
   \<and> current_poll_interval (update_poll_interval (client0\<lparr>current_load := 2, current_poll_interval := 12\<rparr>)) = 5"
  using update_poll_interval_formula [of "client0\<lparr>current_load := 5, current_poll_interval := 10\<rparr>"]
        update_poll_interval_formula [of "client0\<lparr>current_load := 5, current_poll_interval := 24\<rparr>"]
        update_poll_interval_formula [of "client0\<lparr>current_load := 0, current_poll_interval := 5\<rparr>"]
        update_poll_interval_formula [of "client0\<lparr>current_load := 2, current_poll_interval := 12\<rparr>"]
  by (simp add: spec_next_interval_def client0_def init_client_def)

subsection \<open>Metrics\<close>

text \<open>
  C9. For every counter state with \<open>successful \<le> total\<close>, the success rate is 100 when
  \<open>total\<close> is 0 and \<open>100 * successful / total\<close> otherwise (in exact arithmetic).
\<close>

theorem get_success_rate_formula:
  "successful_requests c \<le> total_requests c \<Longrightarrow>
   get_success_rate c = spec_success_rate (successful_requests c) (total_requests c)"
  by (simp add: get_success_rate_def spec_success_rate_def)

theorem get_success_rate_formula_witness:
  "successful_requests (client0\<lparr>total_requests := 4, successful_requests := 3\<rparr>)
     \<le> total_requests (client0\<lparr>total_requests := 4, successful_requests := 3\<rparr>)
   \<and> get_success_rate (client0\<lparr>total_requests := 4, successful_requests := 3\<rparr>) = 75
   \<and> get_success_rate client0 = 100"
  using get_success_rate_formula [of "client0\<lparr>total_requests := 4, successful_requests := 3\<rparr>"]
        get_success_rate_formula [of client0]
  by (simp add: spec_success_rate_def client0_def init_client_def)

subsection \<open>Reports without a session\<close>

text \<open>
  C10. A chunk, completion or error report attempted while the worker holds no session
  id makes no HTTP call: the method returns normally, the only event it adds is the
  warning, the posted reports are the same as before, and the worker's state is the
  state it was called with.
\<close>

theorem report_without_session_is_noop:
  "\<not> has_session c \<Longrightarrow>
   send_chunk net c tr rid content sequence
     = (c, tr @ [Log Warning ''No session ID, cannot send response''])
   \<and> send_completion net c tr rid full_response rt
     = (c, tr @ [Log Warning ''No session ID, cannot send response''])
   \<and> send_error net c tr rid msg
     = (c, tr @ [Log Warning ''No session ID, cannot send response''])
   \<and> reports_of (tr @ [Log Warning ''No session ID, cannot send response'']) = reports_of tr"
  by (simp add: send_chunk_def send_completion_def send_error_def send_response_no_session
        reports_of_append)

theorem report_without_session_is_noop_witness:
  "\<not> has_session (init_client 5)
   \<and> send_chunk net_ok (init_client 5) [] ''r1'' ''Hello'' 0
       = (init_client 5, [Log Warning ''No session ID, cannot send response''])
   \<and> send_completion net_ok (init_client 5) [] ''r1'' ''Simulated response'' 2000
       = (init_client 5, [Log Warning ''No session ID, cannot send response''])
   \<and> send_error net_ok (init_client 5) [] ''r1'' ''boom''
       = (init_client 5, [Log Warning ''No session ID, cannot send response''])"
  using report_without_session_is_noop
          [of "init_client 5" net_ok "[]" "''r1''" "''Hello''" 0 "''Simulated response''" 2000 "''boom''"]
  by (simp add: has_session_def init_client_def)

subsection \<open>The worker keeps its session and its state through reports\<close>

lemma has_session_update [simp]: "has_session (update_poll_interval c) = has_session c"
  by (simp add: has_session_def update_poll_interval_def)

lemma has_session_begin [simp]: "has_session (begin_request c) = has_session c"
  by (simp add: has_session_def begin_request_def)

lemma has_session_success [simp]: "has_session (record_success c rt) = has_session c"
  by (simp add: has_session_def record_success_def)

lemma has_session_client0: "has_session client0"
  by (simp add: has_session_def client0_def init_client_def)

subsection \<open>The executor\<close>

lemma stream_loop_reports:
  "has_session c \<Longrightarrow> request_id req = Some rid \<Longrightarrow>
   \<exists>tr'. stream_loop net c req None ics tr = (c, tr', Returned)
        \<and> reports_of tr' = reports_of tr @ map (\<lambda>(i, chunk). Chunk rid chunk i) ics"
proof (induction ics arbitrary: tr)
  case Nil
  then show ?case by simp
next
  case (Cons ic ics)
  obtain i chunk where ic: "ic = (i, chunk)" by (cases ic)
  obtain c1 tr1 where s: "send_chunk net c tr rid chunk i = (c1, tr1)"
    by (cases "send_chunk net c tr rid chunk i")
  have c1: "c1 = c" using s send_response_state [of net c tr "Chunk rid chunk i"]
    by (simp add: send_chunk_def)
  have r1: "reports_of tr1 = reports_of tr @ [Chunk rid chunk i]"
    using s send_response_reports [OF Cons.prems(1), of net tr "Chunk rid chunk i"]
    by (simp add: send_chunk_def)
  from Cons.IH [OF Cons.prems, of "tr1 @ [Sleep (1 / 10)]"]
  obtain tr' where t: "stream_loop net c req None ics (tr1 @ [Sleep (1 / 10)]) = (c, tr', Returned)"
    and r: "reports_of tr' = reports_of (tr1 @ [Sleep (1 / 10)]) @ map (\<lambda>(i, chunk). Chunk rid chunk i) ics"
    by blast
  show ?case
    using t r r1 by (simp add: ic Cons.prems s c1 reports_of_append)
qed

lemma enumerate_chunk_reports:
  "map (\<lambda>(i, chunk). Chunk rid chunk i) (List.enumerate 0 xs)
     = map (\<lambda>i. Chunk rid (xs ! i) i) [0..<length xs]"
  by (rule nth_equalityI) (simp_all add: nth_enumerate_eq)

lemma simulate_streaming:
  assumes "has_session c" "request_id req = Some rid" "model req = Some m" "messages req = Some ms"
    and "stream req = Some True \<or> stream req = None"
  shows "\<exists>tr'. simulate_browser_processing net c tr req None = (c, tr', Returned)
        \<and> reports_of tr' = reports_of tr @ map (\<lambda>i. Chunk rid (chunks ! i) i) [0..<length chunks]"
proof -
  from stream_loop_reports [OF assms(1,2), of net "List.enumerate 0 chunks" "tr @ [Log Info ''Simulating processing for model'']"]
  obtain tr' where "stream_loop net c req None (List.enumerate 0 chunks) (tr @ [Log Info ''Simulating processing for model'']) = (c, tr', Returned)"
    and "reports_of tr' = reports_of (tr @ [Log Info ''Simulating processing for model'']) @ map (\<lambda>(i, chunk). Chunk rid chunk i) (List.enumerate 0 chunks)"
    by blast
  then show ?thesis
    using assms(3,4,5)
    by (auto simp: simulate_browser_processing_def reports_of_append enumerate_chunk_reports)
qed

lemma stream_loop_effects:
  "has_session c \<Longrightarrow> request_id req = Some rid \<Longrightarrow>
   effects_of (fst (snd (stream_loop net c req None ics tr)))
     = effects_of tr @ concat (map (\<lambda>(i, chunk). [PostResponse (Chunk rid chunk i), Sleep (1 / 10)]) ics)"
proof (induction ics arbitrary: tr)
  case Nil
  then show ?case by simp
next
  case (Cons ic ics)
  obtain i chunk where ic: "ic = (i, chunk)" by (cases ic)
  obtain c1 tr1 where s: "send_chunk net c tr rid chunk i = (c1, tr1)"
    by (cases "send_chunk net c tr rid chunk i")
  have c1: "c1 = c" using s send_response_state [of net c tr "Chunk rid chunk i"]
    by (simp add: send_chunk_def)
  have e1: "effects_of tr1 = effects_of tr @ [PostResponse (Chunk rid chunk i)]"
    using s send_response_effects [OF Cons.prems(1), of net tr "Chunk rid chunk i"]
    by (simp add: send_chunk_def)
  show ?case
    using Cons.IH [OF Cons.prems, of "tr1 @ [Sleep (1 / 10)]"] e1
    by (simp add: ic Cons.prems s c1 effects_of_append)
qed

lemma enumerate_chunk_effects:
  "map (\<lambda>(i, chunk). [PostResponse (Chunk rid chunk i), Sleep (1 / 10)]) (List.enumerate 0 xs)
     = map (\<lambda>i. [PostResponse (Chunk rid (xs ! i) i), Sleep (1 / 10)]) [0..<length xs]"
  by (rule nth_equalityI) (simp_all add: nth_enumerate_eq)

lemma simulate_streaming_effects:
  assumes "has_session c" "request_id req = Some rid" "model req = Some m" "messages req = Some ms"
    and "stream req = Some True \<or> stream req = None"
  shows "effects_of (fst (snd (simulate_browser_processing net c tr req None)))
        = effects_of tr
          @ concat (map (\<lambda>i. [PostResponse (Chunk rid (chunks ! i) i), Sleep (1 / 10)]) [0..<length chunks])"
  using stream_loop_effects [OF assms(1,2), of net "List.enumerate 0 chunks"
          "tr @ [Log Info ''Simulating processing for model'']"] assms(3,4,5)
  by (auto simp: simulate_browser_processing_def effects_of_append enumerate_chunk_effects)

lemma stream_loop_state: "fst (stream_loop net c req cancel ics tr) = c"
proof (induction ics arbitrary: tr)
  case Nil
  then show ?case by simp
next
  case (Cons ic ics)
  obtain i chunk where ic: "ic = (i, chunk)" by (cases ic)
  show ?case
  proof (cases "request_id req")
    case None
    then show ?thesis by (simp add: ic)
  next
    case (Some rid)
    obtain c1 tr1 where s: "send_chunk net c tr rid chunk i = (c1, tr1)"
      by (cases "send_chunk net c tr rid chunk i")
    have c1: "c1 = c" using s send_response_state [of net c tr "Chunk rid chunk i"]
      by (simp add: send_chunk_def)
    show ?thesis using Cons.IH [of "tr1 @ [Sleep (1 / 10)]"] by (simp add: ic Some s c1)
  qed
qed

lemma stream_loop_not_raised:
  "request_id req = Some rid \<Longrightarrow> snd (snd (stream_loop net c req cancel ics tr)) \<noteq> Raised e"
proof (induction ics arbitrary: tr)
  case Nil
  then show ?case by simp
next
  case (Cons ic ics)
  obtain i chunk where ic: "ic = (i, chunk)" by (cases ic)
  obtain c1 tr1 where s: "send_chunk net c tr rid chunk i = (c1, tr1)"
    by (cases "send_chunk net c tr rid chunk i")
  have c1: "c1 = c" using s send_response_state [of net c tr "Chunk rid chunk i"]
    by (simp add: send_chunk_def)
  show ?case using Cons.IH [OF Cons.prems, of "tr1 @ [Sleep (1 / 10)]"]
    by (simp add: ic Cons.prems s c1)
qed

lemma simulate_state: "fst (simulate_browser_processing net c tr req cancel) = c"
  using stream_loop_state [of net c req cancel "List.enumerate 0 chunks" "tr @ [Log Info ''Simulating processing for model'']"]
  by (simp add: simulate_browser_processing_def Let_def split: option.splits)

lemma simulate_raised:
  assumes "simulate_browser_processing net c tr req cancel = (c2, tr2, Raised e)"
    and "request_id req = Some rid"
  shows "c2 = c \<and> tr2 = tr
         \<and> (model req = None \<and> e = KeyError ''model''
            \<or> model req \<noteq> None \<and> messages req = None \<and> e = KeyError ''messages'')"
proof (cases "model req")
  case None
  then show ?thesis using assms(1) by (simp add: simulate_browser_processing_def)
next
  case (Some m)
  show ?thesis
  proof (cases "messages req")
    case None
    then show ?thesis using assms(1) Some by (simp add: simulate_browser_processing_def)
  next
    case (Some ms)
    have "snd (snd (simulate_browser_processing net c tr req cancel)) \<noteq> Raised e"
      using stream_loop_not_raised [OF assms(2), of net c cancel "List.enumerate 0 chunks"
              "tr @ [Log Info ''Simulating processing for model'']" e]
      by (simp add: simulate_browser_processing_def Let_def Some \<open>model req = Some m\<close>)
    then show ?thesis using assms(1) by simp
  qed
qed

subsection \<open>Streaming\<close>

text \<open>
  C4. A registered worker that processes a well-formed request with \<open>stream = true\<close>
  (no cancellation) reports every chunk on its own and at once: apart from log lines,
  what it does is the post of chunk 0, the delay of 0.1 s, the post of chunk 1, the
  delay, and so on, each post before the delay of its round and so before the next
  chunk is produced, and after the last round the post of exactly one completion
  report. So the reports are one per chunk, then the completion, and nothing else; the
  chunk reports carry the sequence numbers \<open>0, 1, ..., n - 1\<close> in the order of emission,
  and the executor's \<open>n\<close> is 8. The answers of the dispatcher to the reports do not
  matter.
\<close>

theorem streaming_chunks_in_sequence:
  assumes "has_session c" and "request_id req = Some rid"
    and "model req = Some m" and "messages req = Some ms" and "stream req = Some True"
  shows "\<exists>c' tr'. process_request net c tr req t0 t1 None = (c', tr', None)
           \<and> effects_of tr' = effects_of tr
                @ concat (map (\<lambda>i. [PostResponse (Chunk rid (chunks ! i) i), Sleep (1 / 10)])
                            [0..<length chunks])
                @ [PostResponse (Complete rid ''Simulated response'' ((t1 - t0) * 1000))]
           \<and> reports_of tr' = reports_of tr
                @ map (\<lambda>i. Chunk rid (chunks ! i) i) [0..<length chunks]
                @ [Complete rid ''Simulated response'' ((t1 - t0) * 1000)]
           \<and> map seq_of (map (\<lambda>i. Chunk rid (chunks ! i) i) [0..<length chunks])
               = map Some [0..<length chunks]
           \<and> length chunks = 8"
proof -
  have hs: "has_session (begin_request c)" using assms(1) by simp
  let ?tr1 = "tr @ [Log Info ''Processing request'']"
  from simulate_streaming [OF hs assms(2,3,4), of net ?tr1] assms(5)
  obtain tr2 where sim: "simulate_browser_processing net (begin_request c) ?tr1 req None
       = (begin_request c, tr2, Returned)"
    and r2: "reports_of tr2 = reports_of ?tr1
       @ map (\<lambda>i. Chunk rid (chunks ! i) i) [0..<length chunks]"
    by blast
  have e2: "effects_of tr2 = effects_of ?tr1
       @ concat (map (\<lambda>i. [PostResponse (Chunk rid (chunks ! i) i), Sleep (1 / 10)]) [0..<length chunks])"
    using simulate_streaming_effects [OF hs assms(2,3,4), of net ?tr1] assms(5) sim by simp
  let ?c3 = "record_success (begin_request c) ((t1 - t0) * 1000)"
  let ?rep = "Complete rid ''Simulated response'' ((t1 - t0) * 1000)"
  have hs3: "has_session ?c3" using hs by simp
  obtain c4 tr4 where sr: "send_response net ?c3 tr2 ?rep = (c4, tr4)"
    by (cases "send_response net ?c3 tr2 ?rep")
  have c4: "c4 = ?c3" using sr send_response_state [of net ?c3 tr2 ?rep] by simp
  have r3: "reports_of tr4 = reports_of tr2 @ [?rep]"
    using sr send_response_reports [OF hs3, of net tr2 ?rep] by simp
  have e3: "effects_of tr4 = effects_of tr2 @ [PostResponse ?rep]"
    using sr send_response_effects [OF hs3, of net tr2 ?rep] by simp
  have pr: "process_request net c tr req t0 t1 None = (release ?c3, tr4, None)"
    using sr c4 by (simp add: process_request_def assms(2) sim send_completion_def Let_def)
  have sq: "map seq_of (map (\<lambda>i. Chunk rid (chunks ! i) i) [0..<length chunks])
      = map Some [0..<length chunks]"
    by (simp add: seq_of_def comp_def)
  have len: "length chunks = 8"
    by (simp add: chunks_def)
  have e: "effects_of tr4 = effects_of tr
                @ concat (map (\<lambda>i. [PostResponse (Chunk rid (chunks ! i) i), Sleep (1 / 10)])
                            [0..<length chunks])
                @ [PostResponse ?rep]"
    using e3 e2 by (simp add: effects_of_append)
  have r: "reports_of tr4 = reports_of tr
                @ map (\<lambda>i. Chunk rid (chunks ! i) i) [0..<length chunks] @ [?rep]"
    using r3 r2 by (simp add: reports_of_append)
  show ?thesis
    using pr e r sq len by blast
qed

theorem streaming_chunks_in_sequence_witness:
  "has_session client0 \<and> request_id req0 = Some ''r1'' \<and> model req0 = Some ''m''
   \<and> messages req0 = Some [(''user'', ''hi'')] \<and> stream req0 = Some True
   \<and> fst (snd (process_request net_ok client0 [] req0 10 12 None))
       = [Log Info ''Processing request'', Log Info ''Simulating processing for model'',
          PostResponse (Chunk ''r1'' ''Hello'' 0), Sleep (1 / 10),
          PostResponse (Chunk ''r1'' '' there'' 1), Sleep (1 / 10),
          PostResponse (Chunk ''r1'' ''! This'' 2), Sleep (1 / 10),
          PostResponse (Chunk ''r1'' '' is'' 3), Sleep (1 / 10),
          PostResponse (Chunk ''r1'' '' a'' 4), Sleep (1 / 10),
          PostResponse (Chunk ''r1'' '' simulated'' 5), Sleep (1 / 10),
          PostResponse (Chunk ''r1'' '' response'' 6), Sleep (1 / 10),
          PostResponse (Chunk ''r1'' ''.'' 7), Sleep (1 / 10),
          PostResponse (Complete ''r1'' ''Simulated response'' 2000)]
   \<and> effects_of (fst (snd (process_request net_ok client0 [] req0 10 12 None)))
       = [PostResponse (Chunk ''r1'' ''Hello'' 0), Sleep (1 / 10),
          PostResponse (Chunk ''r1'' '' there'' 1), Sleep (1 / 10),
          PostResponse (Chunk ''r1'' ''! This'' 2), Sleep (1 / 10),
          PostResponse (Chunk ''r1'' '' is'' 3), Sleep (1 / 10),
          PostResponse (Chunk ''r1'' '' a'' 4), Sleep (1 / 10),
          PostResponse (Chunk ''r1'' '' simulated'' 5), Sleep (1 / 10),
          PostResponse (Chunk ''r1'' '' response'' 6), Sleep (1 / 10),
          PostResponse (Chunk ''r1'' ''.'' 7), Sleep (1 / 10),
          PostResponse (Complete ''r1'' ''Simulated response'' 2000)]
   \<and> reports_of (fst (snd (process_request net_ok client0 [] req0 10 12 None)))
       = [Chunk ''r1'' ''Hello'' 0, Chunk ''r1'' '' there'' 1, Chunk ''r1'' ''! This'' 2,
          Chunk ''r1'' '' is'' 3, Chunk ''r1'' '' a'' 4, Chunk ''r1'' '' simulated'' 5,
          Chunk ''r1'' '' response'' 6, Chunk ''r1'' ''.'' 7,
          Complete ''r1'' ''Simulated response'' 2000]"
proof -
  have h: "has_session client0" "request_id req0 = Some ''r1''" "model req0 = Some ''m''"
    "messages req0 = Some [(''user'', ''hi'')]" "stream req0 = Some True"
    by (simp_all add: has_session_client0 req0_def)
  from streaming_chunks_in_sequence [OF h, of net_ok "[]" 10 12]
  obtain c' tr' where p: "process_request net_ok client0 [] req0 10 12 None = (c', tr', None)"
    and e: "effects_of tr' = effects_of []
                @ concat (map (\<lambda>i. [PostResponse (Chunk ''r1'' (chunks ! i) i), Sleep (1 / 10)])
                            [0..<length chunks])
                @ [PostResponse (Complete ''r1'' ''Simulated response'' ((12 - 10) * 1000))]"
    and r: "reports_of tr' = reports_of []
                @ map (\<lambda>i. Chunk ''r1'' (chunks ! i) i) [0..<length chunks]
                @ [Complete ''r1'' ''Simulated response'' ((12 - 10) * 1000)]"
    by blast
  have u: "[0..<8] = [0, 1, 2, 3, 4, 5, 6, 7::nat]"
    by (simp add: upt_rec)
  have m: "map (\<lambda>i. Chunk ''r1'' (chunks ! i) i) [0..<length chunks]
      = [Chunk ''r1'' ''Hello'' 0, Chunk ''r1'' '' there'' 1, Chunk ''r1'' ''! This'' 2,
          Chunk ''r1'' '' is'' 3, Chunk ''r1'' '' a'' 4, Chunk ''r1'' '' simulated'' 5,
          Chunk ''r1'' '' response'' 6, Chunk ''r1'' ''.'' 7]"
    by (simp add: chunks_def u)
  have m2: "concat (map (\<lambda>i. [PostResponse (Chunk ''r1'' (chunks ! i) i), Sleep (1 / 10)])
                            [0..<length chunks])
      = [PostResponse (Chunk ''r1'' ''Hello'' 0), Sleep (1 / 10),
          PostResponse (Chunk ''r1'' '' there'' 1), Sleep (1 / 10),
          PostResponse (Chunk ''r1'' ''! This'' 2), Sleep (1 / 10),
          PostResponse (Chunk ''r1'' '' is'' 3), Sleep (1 / 10),
          PostResponse (Chunk ''r1'' '' a'' 4), Sleep (1 / 10),
          PostResponse (Chunk ''r1'' '' simulated'' 5), Sleep (1 / 10),
          PostResponse (Chunk ''r1'' '' response'' 6), Sleep (1 / 10),
          PostResponse (Chunk ''r1'' ''.'' 7), Sleep (1 / 10)]"
    by (simp add: chunks_def u)
  have full: "fst (snd (process_request net_ok client0 [] req0 10 12 None))
       = [Log Info ''Processing request'', Log Info ''Simulating processing for model'',
          PostResponse (Chunk ''r1'' ''Hello'' 0), Sleep (1 / 10),
          PostResponse (Chunk ''r1'' '' there'' 1), Sleep (1 / 10),
          PostResponse (Chunk ''r1'' ''! This'' 2), Sleep (1 / 10),
          PostResponse (Chunk ''r1'' '' is'' 3), Sleep (1 / 10),
          PostResponse (Chunk ''r1'' '' a'' 4), Sleep (1 / 10),
          PostResponse (Chunk ''r1'' '' simulated'' 5), Sleep (1 / 10),
          PostResponse (Chunk ''r1'' '' response'' 6), Sleep (1 / 10),
          PostResponse (Chunk ''r1'' ''.'' 7), Sleep (1 / 10),
          PostResponse (Complete ''r1'' ''Simulated response'' 2000)]"
    by (simp add: process_request_def simulate_browser_processing_def send_chunk_def
          send_completion_def send_response_def begin_request_def record_success_def
          release_def has_session_def req0_def client0_def init_client_def net_ok_def
          chunks_def enumerate_eq_zip upt_rec Let_def)
  have e': "effects_of (fst (snd (process_request net_ok client0 [] req0 10 12 None)))
      = concat (map (\<lambda>i. [PostResponse (Chunk ''r1'' (chunks ! i) i), Sleep (1 / 10)])
                            [0..<length chunks])
                @ [PostResponse (Complete ''r1'' ''Simulated response'' 2000)]"
    using p e by simp
  have r': "reports_of (fst (snd (process_request net_ok client0 [] req0 10 12 None)))
      = map (\<lambda>i. Chunk ''r1'' (chunks ! i) i) [0..<length chunks]
                @ [Complete ''r1'' ''Simulated response'' 2000]"
    using p r by simp
  show ?thesis
    unfolding e' r' m m2 using h full by simp
qed

subsection \<open>Executor errors\<close>

text \<open>
  C5. When the executor raises while a registered worker processes a request, exactly
  one report is posted for the request, of type error (with the generic error type
  \<open>processing_error\<close>), and no completion; the load is back at its value before the
  request, the total counter is one higher and the successful counter is unchanged.
\<close>

theorem executor_error_reported:
  assumes "has_session c" and "request_id req = Some rid"
    and "simulate_browser_processing net (begin_request c) (tr @ [Log Info ''Processing request'']) req cancel
           = (c2, tr2, Raised e)"
  shows "\<exists>c' tr'. process_request net c tr req t0 t1 cancel = (c', tr', None)
           \<and> reports_of tr' = reports_of tr @ [Error rid (exn_str e) ''processing_error'']
           \<and> current_load c' = current_load c
           \<and> total_requests c' = total_requests c + 1
           \<and> successful_requests c' = successful_requests c"
proof -
  from simulate_raised [OF assms(3,2)]
  have c2: "c2 = begin_request c" and tr2: "tr2 = tr @ [Log Info ''Processing request'']"
    by simp_all
  let ?rep = "Error rid (exn_str e) ''processing_error''"
  let ?tr3 = "tr2 @ [Log Failure ''Failed to process request'']"
  have hs: "has_session (begin_request c)" using assms(1) by simp
  obtain c3 tr3 where sr: "send_response net (begin_request c) ?tr3 ?rep = (c3, tr3)"
    by (cases "send_response net (begin_request c) ?tr3 ?rep")
  have c3: "c3 = begin_request c"
    using sr send_response_state [of net "begin_request c" ?tr3 ?rep] by simp
  have r3: "reports_of tr3 = reports_of ?tr3 @ [?rep]"
    using sr send_response_reports [OF hs, of net ?tr3 ?rep] by simp
  have pr: "process_request net c tr req t0 t1 cancel = (release (begin_request c), tr3, None)"
    using sr c3 assms(3) c2 by (simp add: process_request_def assms(2) send_error_def Let_def)
  show ?thesis
    using pr r3 tr2 by (simp add: reports_of_append release_def begin_request_def)
qed

theorem executor_error_reported_witness:
  "has_session client0 \<and> request_id req_no_model = Some ''r2''
   \<and> simulate_browser_processing net_ok (begin_request client0) [Log Info ''Processing request''] req_no_model None
       = (begin_request client0, [Log Info ''Processing request''], Raised (KeyError ''model''))
   \<and> reports_of (fst (snd (process_request net_ok client0 [] req_no_model 10 12 None)))
       = [Error ''r2'' (key_error_str ''model'') ''processing_error'']
   \<and> current_load (fst (process_request net_ok client0 [] req_no_model 10 12 None)) = 0
   \<and> total_requests (fst (process_request net_ok client0 [] req_no_model 10 12 None)) = 1
   \<and> successful_requests (fst (process_request net_ok client0 [] req_no_model 10 12 None)) = 0"
proof -
  have h1: "has_session client0" by (rule has_session_client0)
  have h2: "request_id req_no_model = Some ''r2''" by (simp add: req_no_model_def)
  have h3: "simulate_browser_processing net_ok (begin_request client0) ([] @ [Log Info ''Processing request'']) req_no_model None
       = (begin_request client0, [Log Info ''Processing request''], Raised (KeyError ''model''))"
    by (simp add: simulate_browser_processing_def req_no_model_def)
  from executor_error_reported [OF h1 h2 h3, of 10 12]
  obtain c' tr' where "process_request net_ok client0 [] req_no_model 10 12 None = (c', tr', None)"
    and "reports_of tr' = reports_of [] @ [Error ''r2'' (exn_str (KeyError ''model'')) ''processing_error'']"
    and "current_load c' = current_load client0"
    and "total_requests c' = total_requests client0 + 1"
    and "successful_requests c' = successful_requests client0"
    by blast
  then show ?thesis using h1 h2 h3 by (simp add: client0_def init_client_def)
qed

subsection \<open>What recomputing the interval leaves alone\<close>

lemma update_poll_interval_fields [simp]:
  "current_load (update_poll_interval c) = current_load c"
  "total_requests (update_poll_interval c) = total_requests c"
  "successful_requests (update_poll_interval c) = successful_requests c"
  "total_response_time (update_poll_interval c) = total_response_time c"
  "base_poll_interval (update_poll_interval c) = base_poll_interval c"
  "max_concurrent (update_poll_interval c) = max_concurrent c"
  "running (update_poll_interval c) = running c"
  "session_id (update_poll_interval c) = session_id c"
  by (simp_all add: update_poll_interval_def)

lemma metrics_update [simp]:
  "get_average_response_time (update_poll_interval c) = get_average_response_time c"
  "get_success_rate (update_poll_interval c) = get_success_rate c"
  by (simp_all add: get_average_response_time_def get_success_rate_def)

subsection \<open>An idle poll with a recommended interval\<close>




subsection \<open>A poll that fails in transport\<close>

text \<open>
  C8, as stated, fails: after a poll that raised, the worker does not wait a fixed 5 s.
  The exception is caught inside \<open>poll_for_requests\<close>, which logs it and returns
  normally, so the loop sleeps its current interval: 4 s for a fresh worker. The
  \<open>sleep(5)\<close> of the loop's own handler is not reached.
\<close>

theorem poll_failure_fixed_delay_counterexample:
  "polling_round net_ok client0 [] (round0 Poll_Raised)
     = (client0\<lparr>current_poll_interval := 4\<rparr>,
        [PostPoll 0 0 100, Log Failure ''Polling error'', Sleep 4], None)
   \<and> Sleep 5 \<notin> set (fst (snd (polling_round net_ok client0 [] (round0 Poll_Raised))))"
  by (simp add: polling_round_def poll_for_requests_def round0_def client0_def init_client_def
        has_session_def update_poll_interval_def get_average_response_time_def
        get_success_rate_def Let_def)

text \<open>Only a cancellation leaves \<open>poll_for_requests\<close> as an exception.\<close>

lemma poll_for_requests_catches:
  "snd (snd (poll_for_requests net c tr pr t0 t1 cancel)) = Some e \<Longrightarrow> \<not> is_Exception e"
  by (auto simp: poll_for_requests_def Let_def
        split: if_splits poll_result.splits option.splits prod.splits)

text \<open>
  C8, amended. A poll transport failure (exception or timeout) of a registered, running
  worker does not end the loop and is not propagated: it is logged, the worker sleeps
  the interval it computed at the top of the round, and the loop goes on to the next
  round.
\<close>

theorem poll_failure_keeps_polling:
  assumes "running c" and "has_session c" and "poll_answer inp = Poll_Raised"
  shows "polling_round net c tr inp
           = (update_poll_interval c,
              tr @ [PostPoll (current_load c) (get_average_response_time c) (get_success_rate c),
                    Log Failure ''Polling error'',
                    Sleep (current_poll_interval (update_poll_interval c))],
              None)
         \<and> polling_loop net c tr (inp # inps)
           = polling_loop net
               (if stop_called inp then (update_poll_interval c)\<lparr>running := False\<rparr>
                else update_poll_interval c)
               (tr @ [PostPoll (current_load c) (get_average_response_time c) (get_success_rate c),
                      Log Failure ''Polling error'',
                      Sleep (current_poll_interval (update_poll_interval c))])
               inps"
proof -
  have r: "polling_round net c tr inp
           = (update_poll_interval c,
              tr @ [PostPoll (current_load c) (get_average_response_time c) (get_success_rate c),
                    Log Failure ''Polling error'',
                    Sleep (current_poll_interval (update_poll_interval c))],
              None)"
    using assms(2,3) by (simp add: polling_round_def poll_for_requests_def Let_def)
  show ?thesis
    using r assms(1) by simp
qed

theorem poll_failure_keeps_polling_witness:
  "running client0 \<and> has_session client0 \<and> poll_answer (round0 Poll_Raised) = Poll_Raised
   \<and> polling_loop net_ok client0 [] [round0 Poll_Raised, round0 Poll_Raised]
       = (client0\<lparr>current_poll_interval := 16 / 5\<rparr>,
          [PostPoll 0 0 100, Log Failure ''Polling error'', Sleep 4,
           PostPoll 0 0 100, Log Failure ''Polling error'', Sleep (16 / 5)], None)"
proof -
  have h: "running client0" "has_session client0" "poll_answer (round0 Poll_Raised) = Poll_Raised"
    by (simp_all add: has_session_def init_client_def round0_def client0_def)
  have h': "running (update_poll_interval client0)" "has_session (update_poll_interval client0)"
    using h by simp_all
  show ?thesis
    using h poll_failure_keeps_polling [OF h, of net_ok "[]" "[round0 Poll_Raised]"]
      poll_failure_keeps_polling [OF h' h(3), of net_ok
        "[PostPoll 0 0 100, Log Failure ''Polling error'', Sleep 4]" "[]"]
    by (simp add: client0_def init_client_def update_poll_interval_def round0_def
          get_average_response_time_def get_success_rate_def)
qed

subsection \<open>A request runs to its end\<close>

lemma simulate_no_cancel:
  assumes "has_session c" and "request_id req = Some rid"
  shows "\<exists>tr2 out rs. simulate_browser_processing net c tr req None = (c, tr2, out)
           \<and> out \<noteq> Cancelled \<and> reports_of tr2 = reports_of tr @ rs"
proof (cases "model req")
  case None
  then show ?thesis by (simp add: simulate_browser_processing_def)
next
  case m: (Some m)
  show ?thesis
  proof (cases "messages req")
    case None
    then show ?thesis using m by (simp add: simulate_browser_processing_def)
  next
    case ms: (Some ms)
    show ?thesis
    proof (cases "stream req = Some False")
      case True
      then show ?thesis using m ms
        by (simp add: simulate_browser_processing_def reports_of_append)
    next
      case False
      then have "stream req = Some True \<or> stream req = None" by (cases "stream req") auto
      from simulate_streaming [OF assms m ms this, of net tr]
      show ?thesis by auto
    qed
  qed
qed

lemma process_request_terminal:
  assumes "has_session c" and "request_id req = Some rid"
  shows "\<exists>c' tr' rs rep. process_request net c tr req t0 t1 None = (c', tr', None)
           \<and> current_load c' = current_load c
           \<and> current_poll_interval c' = current_poll_interval c
           \<and> reports_of tr' = reports_of tr @ rs @ [rep] \<and> is_terminal_for rid rep"
proof -
  have hs: "has_session (begin_request c)" using assms(1) by simp
  from simulate_no_cancel [OF hs assms(2), of net "tr @ [Log Info ''Processing request'']"]
  obtain tr2 out rs where sim: "simulate_browser_processing net (begin_request c)
        (tr @ [Log Info ''Processing request'']) req None = (begin_request c, tr2, out)"
    and nc: "out \<noteq> Cancelled"
    and r2: "reports_of tr2 = reports_of (tr @ [Log Info ''Processing request'']) @ rs"
    by blast
  show ?thesis
  proof (cases out)
    case Returned
    let ?c3 = "record_success (begin_request c) ((t1 - t0) * 1000)"
    let ?rep = "Complete rid ''Simulated response'' ((t1 - t0) * 1000)"
    have hs3: "has_session ?c3" using hs by simp
    obtain c4 tr4 where sr: "send_response net ?c3 tr2 ?rep = (c4, tr4)"
      by (cases "send_response net ?c3 tr2 ?rep")
    have c4: "c4 = ?c3" using sr send_response_state [of net ?c3 tr2 ?rep] by simp
    have r4: "reports_of tr4 = reports_of tr2 @ [?rep]"
      using sr send_response_reports [OF hs3, of net tr2 ?rep] by simp
    have pr: "process_request net c tr req t0 t1 None = (release ?c3, tr4, None)"
      using sr c4 sim Returned
      by (simp add: process_request_def assms(2) send_completion_def Let_def)
    have "reports_of tr4 = reports_of tr @ rs @ [?rep]"
      using r4 r2 by (simp add: reports_of_append)
    moreover have "is_terminal_for rid ?rep" by simp
    moreover have "current_load (release ?c3) = current_load c"
      "current_poll_interval (release ?c3) = current_poll_interval c"
      by (simp_all add: release_def record_success_def begin_request_def)
    ultimately show ?thesis using pr by blast
  next
    case (Raised e)
    let ?rep = "Error rid (exn_str e) ''processing_error''"
    let ?tr3 = "tr2 @ [Log Failure ''Failed to process request'']"
    obtain c3 tr3 where sr: "send_response net (begin_request c) ?tr3 ?rep = (c3, tr3)"
      by (cases "send_response net (begin_request c) ?tr3 ?rep")
    have c3: "c3 = begin_request c"
      using sr send_response_state [of net "begin_request c" ?tr3 ?rep] by simp
    have r3: "reports_of tr3 = reports_of ?tr3 @ [?rep]"
      using sr send_response_reports [OF hs, of net ?tr3 ?rep] by simp
    have pr: "process_request net c tr req t0 t1 None = (release (begin_request c), tr3, None)"
      using sr c3 sim Raised by (simp add: process_request_def assms(2) send_error_def Let_def)
    have "reports_of tr3 = reports_of tr @ rs @ [?rep]"
      using r3 r2 by (simp add: reports_of_append)
    moreover have "is_terminal_for rid ?rep" by simp
    moreover have "current_load (release (begin_request c)) = current_load c"
      "current_poll_interval (release (begin_request c)) = current_poll_interval c"
      by (simp_all add: release_def begin_request_def)
    ultimately show ?thesis using pr by blast
  next
    case Cancelled
    then show ?thesis using nc by simp
  qed
qed

lemma process_request_state:
  "(request_id req = None \<and> fst (process_request net c tr req t0 t1 cancel) = c)
   \<or> (request_id req \<noteq> None
       \<and> (fst (process_request net c tr req t0 t1 cancel) = release (begin_request c)
          \<or> fst (process_request net c tr req t0 t1 cancel)
              = release (record_success (begin_request c) ((t1 - t0) * 1000))))"
proof (cases "request_id req")
  case None
  then show ?thesis by (simp add: process_request_def)
next
  case (Some rid)
  let ?tr1 = "tr @ [Log Info ''Processing request'']"
  obtain c2 tr2 out where sim: "simulate_browser_processing net (begin_request c) ?tr1 req cancel = (c2, tr2, out)"
    by (cases "simulate_browser_processing net (begin_request c) ?tr1 req cancel")
  have c2: "c2 = begin_request c"
    using sim simulate_state [of net "begin_request c" ?tr1 req cancel] by simp
  show ?thesis
  proof (cases out)
    case Returned
    let ?c3 = "record_success (begin_request c) ((t1 - t0) * 1000)"
    let ?rep = "Complete rid ''Simulated response'' ((t1 - t0) * 1000)"
    obtain c4 tr4 where sr: "send_response net ?c3 tr2 ?rep = (c4, tr4)"
      by (cases "send_response net ?c3 tr2 ?rep")
    have c4: "c4 = ?c3" using sr send_response_state [of net ?c3 tr2 ?rep] by simp
    show ?thesis using sr c4 sim c2 Returned Some
      by (simp add: process_request_def send_completion_def Let_def)
  next
    case (Raised e)
    let ?rep = "Error rid (exn_str e) ''processing_error''"
    let ?tr3 = "tr2 @ [Log Failure ''Failed to process request'']"
    obtain c3 tr3 where sr: "send_response net (begin_request c) ?tr3 ?rep = (c3, tr3)"
      by (cases "send_response net (begin_request c) ?tr3 ?rep")
    have c3: "c3 = begin_request c"
      using sr send_response_state [of net "begin_request c" ?tr3 ?rep] by simp
    show ?thesis using sr c3 sim c2 Raised Some
      by (simp add: process_request_def send_error_def Let_def)
  next
    case Cancelled
    then show ?thesis using sim c2 Some by (simp add: process_request_def Let_def)
  qed
qed

subsection \<open>An assigned request and the poll loop\<close>

text \<open>
  C2, as stated, fails: the loop does wait for the request. \<open>poll_for_requests\<close> awaits
  \<open>process_request\<close>, so in the round that is assigned a request all its chunk reports
  and its completion report are posted, and its load unit is released, before the round
  sleeps; no request is in flight when the loop goes on.
\<close>

theorem poll_does_not_block_counterexample:
  "polling_round net_ok client0 [] (round0 (assigned_answer req0))
     = (client0\<lparr>current_poll_interval := 4, total_requests := 1, successful_requests := 1,
                 total_response_time := 2000\<rparr>,
        [PostPoll 0 0 100, Log Info ''Processing request'',
         Log Info ''Simulating processing for model'',
         PostResponse (Chunk ''r1'' ''Hello'' 0), Sleep (1 / 10),
         PostResponse (Chunk ''r1'' '' there'' 1), Sleep (1 / 10),
         PostResponse (Chunk ''r1'' ''! This'' 2), Sleep (1 / 10),
         PostResponse (Chunk ''r1'' '' is'' 3), Sleep (1 / 10),
         PostResponse (Chunk ''r1'' '' a'' 4), Sleep (1 / 10),
         PostResponse (Chunk ''r1'' '' simulated'' 5), Sleep (1 / 10),
         PostResponse (Chunk ''r1'' '' response'' 6), Sleep (1 / 10),
         PostResponse (Chunk ''r1'' ''.'' 7), Sleep (1 / 10),
         PostResponse (Complete ''r1'' ''Simulated response'' 2000), Sleep 4],
        None)
   \<and> \<not> current_load (fst (polling_round net_ok client0 [] (round0 (assigned_answer req0))))
         = current_load client0 + 1"
  by (simp add: polling_round_def poll_for_requests_def process_request_def
        simulate_browser_processing_def send_chunk_def send_completion_def send_response_def
        begin_request_def record_success_def release_def update_poll_interval_def
        get_average_response_time_def get_success_rate_def has_session_def
        round0_def assigned_answer_def req0_def client0_def init_client_def net_ok_def
        chunks_def enumerate_eq_zip upt_rec Let_def)

text \<open>
  C2, amended. When a poll of a registered worker returns an assigned request (with a
  request id, no cancellation), the round waits for the request to finish: the round
  ends with its sleep, before which the request's terminal report (completion or error)
  is the last report posted, and the load is what it was before the round. Requests are
  executed one at a time, not concurrently with the poll loop.
\<close>

theorem assigned_request_is_awaited:
  assumes "has_session c" and "poll_answer inp = Poll_Reply 200 body" and "has_request body"
    and "request body = Some req" and "request_id req = Some rid" and "cancel_at inp = None"
  shows "\<exists>c' tr2 rs rep.
           polling_round net c tr inp = (c', tr2 @ [Sleep (current_poll_interval c')], None)
           \<and> current_load c' = current_load c
           \<and> reports_of tr2 = reports_of tr @ rs @ [rep] \<and> is_terminal_for rid rep"
proof -
  let ?c1 = "update_poll_interval c"
  let ?tr1 = "tr @ [PostPoll (current_load ?c1) (get_average_response_time ?c1) (get_success_rate ?c1)]"
  have hs: "has_session ?c1" using assms(1) by simp
  from process_request_terminal [OF hs assms(5), of net ?tr1 "clock_start inp" "clock_end inp"]
  obtain c' tr' rs rep where pr: "process_request net ?c1 ?tr1 req (clock_start inp) (clock_end inp) None
        = (c', tr', None)"
    and l: "current_load c' = current_load ?c1"
    and r: "reports_of tr' = reports_of ?tr1 @ rs @ [rep]" and t: "is_terminal_for rid rep"
    by blast
  have "polling_round net c tr inp = (c', tr' @ [Sleep (current_poll_interval c')], None)"
    using pr hs assms(2,3,4,6) by (simp add: polling_round_def poll_for_requests_def Let_def)
  moreover have "current_load c' = current_load c" using l by simp
  moreover have "reports_of tr' = reports_of tr @ rs @ [rep]"
    using r by (simp add: reports_of_append)
  ultimately show ?thesis using t by blast
qed

theorem assigned_request_is_awaited_witness:
  "has_session client0
   \<and> poll_answer (round0 (assigned_answer req_no_model))
       = Poll_Reply 200 \<lparr>has_request = True, request = Some req_no_model, poll_interval = None\<rparr>
   \<and> request_id req_no_model = Some ''r2''
   \<and> cancel_at (round0 (assigned_answer req_no_model)) = None
   \<and> current_load (fst (polling_round net_ok client0 [] (round0 (assigned_answer req_no_model)))) = 0
   \<and> is_terminal_for ''r2''
        (last (reports_of (butlast (fst (snd (polling_round net_ok client0 []
           (round0 (assigned_answer req_no_model))))))))"
proof -
  let ?body = "\<lparr>has_request = True, request = Some req_no_model, poll_interval = None\<rparr>"
  let ?inp = "round0 (assigned_answer req_no_model)"
  have h: "has_session client0" "poll_answer ?inp = Poll_Reply 200 ?body" "has_request ?body"
    "request ?body = Some req_no_model" "request_id req_no_model = Some ''r2''"
    "cancel_at ?inp = None"
    by (simp_all add: has_session_def client0_def init_client_def round0_def assigned_answer_def
          req_no_model_def)
  from assigned_request_is_awaited [OF h, of net_ok "[]"]
  obtain c' tr2 rs rep where
    p: "polling_round net_ok client0 [] ?inp = (c', tr2 @ [Sleep (current_poll_interval c')], None)"
    and l: "current_load c' = current_load client0"
    and r: "reports_of tr2 = reports_of [] @ rs @ [rep]" and t: "is_terminal_for ''r2'' rep"
    by blast
  have "current_load client0 = 0" by (simp add: client0_def init_client_def)
  then show ?thesis using h p l r t by simp
qed

subsection \<open>Invariants of the actions\<close>

lemma run_append: "run s (as @ bs) = (case run s as of None \<Rightarrow> None | Some s' \<Rightarrow> run s' bs)"
  by (induction as arbitrary: s) (auto split: option.splits)

lemma recommended_append: "recommended (as @ bs) = recommended as @ recommended bs"
  by (induction as rule: recommended.induct) simp_all

lemma step_upper:
  assumes "step (p, c) a = Some (p', c')" and "base_poll_interval c = 5"
    and "current_poll_interval c \<le> 30"
  shows "base_poll_interval c' = 5 \<and> current_poll_interval c' \<le> 30"
  using assms
  by (cases "((p, c), a)" rule: step.cases)
     (auto simp: update_poll_interval_def adopt_recommended_def begin_request_def
        record_success_def release_def split: if_splits option.splits)

lemma step_lower:
  assumes "step (p, c) a = Some (p', c')" and "base_poll_interval c = 5"
    and "1 \<le> current_poll_interval c" and "\<forall>r \<in> set (recommended [a]). 1 \<le> r"
  shows "1 \<le> current_poll_interval c'"
  using assms
  by (cases "((p, c), a)" rule: step.cases)
     (auto simp: update_poll_interval_def adopt_recommended_def begin_request_def
        record_success_def release_def split: if_splits option.splits)

lemma step_load:
  assumes "step (p, c) a = Some (p', c')"
    and "current_load c = (if p = At_Loop then 0 else 1)"
  shows "current_load c' = (if p' = At_Loop then 0 else 1) \<and> max_concurrent c' = max_concurrent c"
  using assms
  by (cases "((p, c), a)" rule: step.cases)
     (auto simp: update_poll_interval_def adopt_recommended_def begin_request_def
        record_success_def release_def Let_def split: if_splits option.splits)

lemma run_upper:
  "run (p, c) acts = Some (p', c') \<Longrightarrow> base_poll_interval c = 5 \<Longrightarrow> current_poll_interval c \<le> 30
   \<Longrightarrow> base_poll_interval c' = 5 \<and> current_poll_interval c' \<le> 30"
proof (induction acts arbitrary: p c)
  case Nil
  then show ?case by simp
next
  case (Cons a acts)
  from Cons.prems(1) obtain p1 c1 where s: "step (p, c) a = Some (p1, c1)"
    and r: "run (p1, c1) acts = Some (p', c')"
    by (auto split: option.splits)
  from step_upper [OF s Cons.prems(2,3)] Cons.IH [OF r] show ?case by blast
qed

lemma run_lower:
  "run (p, c) acts = Some (p', c') \<Longrightarrow> base_poll_interval c = 5 \<Longrightarrow> current_poll_interval c \<le> 30
   \<Longrightarrow> 1 \<le> current_poll_interval c \<Longrightarrow> \<forall>r \<in> set (recommended acts). 1 \<le> r
   \<Longrightarrow> 1 \<le> current_poll_interval c'"
proof (induction acts arbitrary: p c)
  case Nil
  then show ?case by simp
next
  case (Cons a acts)
  from Cons.prems(1) obtain p1 c1 where s: "step (p, c) a = Some (p1, c1)"
    and r: "run (p1, c1) acts = Some (p', c')"
    by (auto split: option.splits)
  have ra: "\<forall>r \<in> set (recommended [a]). 1 \<le> r" and rs: "\<forall>r \<in> set (recommended acts). 1 \<le> r"
    using Cons.prems(5) recommended_append [of "[a]" acts] by auto
  from step_upper [OF s Cons.prems(2,3)] step_lower [OF s Cons.prems(2,4) ra] Cons.IH [OF r _ _ _ rs]
  show ?case by blast
qed

lemma run_load:
  "run (p, c) acts = Some (p', c') \<Longrightarrow> current_load c = (if p = At_Loop then 0 else 1)
   \<Longrightarrow> current_load c' = (if p' = At_Loop then 0 else 1) \<and> max_concurrent c' = max_concurrent c"
proof (induction acts arbitrary: p c)
  case Nil
  then show ?case by simp
next
  case (Cons a acts)
  from Cons.prems(1) obtain p1 c1 where s: "step (p, c) a = Some (p1, c1)"
    and r: "run (p1, c1) acts = Some (p', c')"
    by (auto split: option.splits)
  from step_load [OF s Cons.prems(2)] Cons.IH [OF r] show ?case by simp
qed

lemma start_state:
  assumes "start (init_client mc) rr = Inr c0"
  shows "base_poll_interval c0 = 5 \<and> current_poll_interval c0 = 5 \<and> current_load c0 = 0
         \<and> max_concurrent c0 = mc \<and> running c0"
  using assms
  by (auto simp: start_def register_def init_client_def split: reg_result.splits if_splits sum.splits)

subsection \<open>Every round is a sequence of actions\<close>

lemma process_request_is_run:
  assumes "has_session c"
  shows "\<exists>acts. run (At_Loop, c) acts = Some (At_Loop, fst (process_request net c tr req t0 t1 cancel))
           \<and> recommended acts = []"
proof -
  have a: "run (At_Loop, c) [] = Some (At_Loop, c)" by simp
  have b: "run (At_Loop, c) [Begin, Release] = Some (At_Loop, release (begin_request c))"
    using assms by simp
  have d: "run (At_Loop, c) [Begin, Success ((t1 - t0) * 1000), Release]
      = Some (At_Loop, release (record_success (begin_request c) ((t1 - t0) * 1000)))"
    using assms by simp
  have ra: "recommended [] = []" "recommended [Begin, Release] = []"
    "recommended [Begin, Success ((t1 - t0) * 1000), Release] = []"
    by simp_all
  from process_request_state [of req net c tr t0 t1 cancel] show ?thesis
    using a b d ra by metis
qed

lemma poll_for_requests_is_run:
  "\<exists>acts. run (At_Loop, c) acts = Some (At_Loop, fst (poll_for_requests net c tr pr t0 t1 cancel))
          \<and> set (recommended acts) \<subseteq> set (answer_recommended pr)"
proof (cases "has_session c")
  case False
  have "run (At_Loop, c) [] = Some (At_Loop, c)" "recommended [] = []" by simp_all
  then show ?thesis using False by (auto simp: poll_for_requests_def intro!: exI [of _ "[]"])
next
  case hs: True
  let ?tr1 = "tr @ [PostPoll (current_load c) (get_average_response_time c) (get_success_rate c)]"
  have nil: "run (At_Loop, c) [] = Some (At_Loop, c) \<and> set (recommended []) \<subseteq> set (answer_recommended pr)"
    by simp
  show ?thesis
  proof (cases pr)
    case Poll_Raised
    then have "fst (poll_for_requests net c tr pr t0 t1 cancel) = c"
      using hs by (simp add: poll_for_requests_def Let_def)
    then show ?thesis using nil by metis
  next
    case (Poll_Reply st body)
    show ?thesis
    proof (cases "st = 200")
      case False
      then have "fst (poll_for_requests net c tr pr t0 t1 cancel) = c"
        using hs Poll_Reply by (simp add: poll_for_requests_def Let_def)
      then show ?thesis using nil by metis
    next
      case ok: True
      show ?thesis
      proof (cases "has_request body")
        case False
        then have f: "fst (poll_for_requests net c tr pr t0 t1 cancel) = adopt_recommended c (poll_interval body)"
          using hs Poll_Reply ok by (simp add: poll_for_requests_def Let_def)
        have "run (At_Loop, c) [Idle (poll_interval body)] = Some (At_Loop, adopt_recommended c (poll_interval body))"
          using hs by simp
        moreover have "set (recommended [Idle (poll_interval body)]) \<subseteq> set (answer_recommended pr)"
          using Poll_Reply by (cases "poll_interval body") simp_all
        ultimately show ?thesis using f by metis
      next
        case hr: True
        show ?thesis
        proof (cases "request body")
          case None
          then have "fst (poll_for_requests net c tr pr t0 t1 cancel) = c"
            using hs Poll_Reply ok hr by (simp add: poll_for_requests_def Let_def)
          then show ?thesis using nil by metis
        next
          case (Some req)
          have f: "fst (poll_for_requests net c tr pr t0 t1 cancel)
              = fst (process_request net c ?tr1 req t0 t1 cancel)"
            using hs Poll_Reply ok hr Some
            by (simp add: poll_for_requests_def Let_def split: prod.splits option.splits)
          from process_request_is_run [OF hs, of net ?tr1 req t0 t1 cancel]
          show ?thesis using f by auto
        qed
      qed
    qed
  qed
qed

lemma polling_round_is_run:
  "\<exists>acts. run (At_Loop, c) acts = Some (At_Loop, fst (polling_round net c tr inp))
          \<and> set (recommended acts) \<subseteq> set (answer_recommended (poll_answer inp))"
proof -
  let ?c1 = "update_poll_interval c"
  let ?p = "poll_for_requests net ?c1 tr (poll_answer inp) (clock_start inp) (clock_end inp) (cancel_at inp)"
  from poll_for_requests_is_run [of ?c1 net tr "poll_answer inp" "clock_start inp" "clock_end inp" "cancel_at inp"]
  obtain acts where r: "run (At_Loop, ?c1) acts = Some (At_Loop, fst ?p)"
    and s: "set (recommended acts) \<subseteq> set (answer_recommended (poll_answer inp))"
    by blast
  have f: "fst (polling_round net c tr inp) = fst ?p"
    by (simp add: polling_round_def Let_def split: prod.splits option.splits)
  have "run (At_Loop, c) (Update # acts) = Some (At_Loop, fst (polling_round net c tr inp))"
    using r f by simp
  moreover have "set (recommended (Update # acts)) \<subseteq> set (answer_recommended (poll_answer inp))"
    using s by simp
  ultimately show ?thesis by blast
qed

lemma polling_loop_is_run:
  "\<exists>acts. run (At_Loop, c) acts = Some (At_Loop, fst (polling_loop net c tr inps))
          \<and> set (recommended acts) \<subseteq> set (concat (map (\<lambda>inp. answer_recommended (poll_answer inp)) inps))"
proof (induction inps arbitrary: c tr)
  case Nil
  have "run (At_Loop, c) [] = Some (At_Loop, c)" "recommended [] = []" by simp_all
  then show ?case by (auto intro!: exI [of _ "[]"])
next
  case (Cons inp inps)
  have nil: "run (At_Loop, c) [] = Some (At_Loop, c)" "recommended [] = []" by simp_all
  show ?case
  proof (cases "running c")
    case False
    then show ?thesis using nil by (auto intro!: exI [of _ "[]"])
  next
    case True
    obtain c1 tr1 e where pr: "polling_round net c tr inp = (c1, tr1, e)"
      by (cases "polling_round net c tr inp")
    from polling_round_is_run [of c net tr inp] pr
    obtain a1 where r1: "run (At_Loop, c) a1 = Some (At_Loop, c1)"
      and s1: "set (recommended a1) \<subseteq> set (answer_recommended (poll_answer inp))"
      by auto
    show ?thesis
    proof (cases e)
      case (Some ex)
      then have "fst (polling_loop net c tr (inp # inps)) = c1" using True pr by simp
      then show ?thesis using r1 s1 by auto
    next
      case None
      let ?c2 = "if stop_called inp then c1\<lparr>running := False\<rparr> else c1"
      have f: "polling_loop net c tr (inp # inps) = polling_loop net ?c2 tr1 inps"
        using True pr None by simp
      obtain a2 where r2: "run (At_Loop, c1) a2 = Some (At_Loop, ?c2)" and s2: "recommended a2 = []"
      proof (cases "stop_called inp")
        case True
        have "run (At_Loop, c1) [Stop] = Some (At_Loop, ?c2)" "recommended [Stop] = []"
          using True by simp_all
        then show ?thesis using that by blast
      next
        case False
        have "run (At_Loop, c1) [] = Some (At_Loop, ?c2)" "recommended [] = []"
          using False by simp_all
        then show ?thesis using that by blast
      qed
      from Cons.IH [of ?c2 tr1]
      obtain a3 where r3: "run (At_Loop, ?c2) a3 = Some (At_Loop, fst (polling_loop net ?c2 tr1 inps))"
        and s3: "set (recommended a3) \<subseteq> set (concat (map (\<lambda>inp. answer_recommended (poll_answer inp)) inps))"
        by blast
      have "run (At_Loop, c) (a1 @ a2 @ a3) = Some (At_Loop, fst (polling_loop net c tr (inp # inps)))"
        using r1 r2 r3 f by (simp add: run_append)
      moreover have "set (recommended (a1 @ a2 @ a3))
          \<subseteq> set (concat (map (\<lambda>inp. answer_recommended (poll_answer inp)) (inp # inps)))"
        using s1 s2 s3 by (auto simp: recommended_append)
      ultimately show ?thesis by blast
    qed
  qed
qed

lemma start_client0: "start (init_client 5) (Reg_Reply 200 (Some ''s1'')) = Inr client0"
  by (simp add: start_def register_def client0_def)

subsection \<open>Bounds of the poll interval\<close>

text \<open>
  C1, as stated, fails: a recommended interval is capped at 30 but has no floor. A
  registered worker whose idle poll is answered with \<open>poll_interval: 0\<close> adopts the
  interval 0 and sleeps 0 s.
\<close>

theorem poll_interval_lower_bound_counterexample:
  "start (init_client 5) (Reg_Reply 200 (Some ''s1'')) = Inr client0
   \<and> polling_loop net_ok client0 [] [round0 (idle_answer (Some 0))]
       = (client0\<lparr>current_poll_interval := 0\<rparr>, [PostPoll 0 0 100, Sleep 0], None)
   \<and> \<not> 1 \<le> current_poll_interval (fst (polling_loop net_ok client0 [] [round0 (idle_answer (Some 0))]))"
  by (simp add: start_def register_def polling_round_def poll_for_requests_def
        adopt_recommended_def round0_def idle_answer_def client0_def init_client_def
        has_session_def update_poll_interval_def get_average_response_time_def
        get_success_rate_def Let_def)

text \<open>
  C1, amended. In every state reached from a started worker, by any sequence of
  actions and at the end of any run of the polling loop, the poll interval is at most
  30 s; it is at least 1 s provided every interval the dispatcher recommended was at
  least 1 s.
\<close>

theorem poll_interval_bounds:
  assumes "start (init_client mc) rr = Inr c0" and "run (At_Loop, c0) acts = Some (p, c)"
  shows "current_poll_interval c \<le> 30
         \<and> ((\<forall>r \<in> set (recommended acts). 1 \<le> r) \<longrightarrow> 1 \<le> current_poll_interval c)
         \<and> current_poll_interval (fst (polling_loop net c0 tr inps)) \<le> 30
         \<and> ((\<forall>inp \<in> set inps. \<forall>r \<in> set (answer_recommended (poll_answer inp)). 1 \<le> r)
              \<longrightarrow> 1 \<le> current_poll_interval (fst (polling_loop net c0 tr inps)))"
proof -
  from start_state [OF assms(1)]
  have b: "base_poll_interval c0 = 5" and i: "current_poll_interval c0 \<le> 30"
    and l: "1 \<le> current_poll_interval c0"
    by simp_all
  from polling_loop_is_run [of c0 net tr inps]
  obtain la where lr: "run (At_Loop, c0) la = Some (At_Loop, fst (polling_loop net c0 tr inps))"
    and ls: "set (recommended la) \<subseteq> set (concat (map (\<lambda>inp. answer_recommended (poll_answer inp)) inps))"
    by blast
  have 1: "current_poll_interval c \<le> 30"
    using run_upper [OF assms(2) b i] by simp
  have 2: "(\<forall>r \<in> set (recommended acts). 1 \<le> r) \<longrightarrow> 1 \<le> current_poll_interval c"
    using run_lower [OF assms(2) b i l] by blast
  have 3: "current_poll_interval (fst (polling_loop net c0 tr inps)) \<le> 30"
    using run_upper [OF lr b i] by simp
  have 4: "(\<forall>inp \<in> set inps. \<forall>r \<in> set (answer_recommended (poll_answer inp)). 1 \<le> r)
              \<longrightarrow> 1 \<le> current_poll_interval (fst (polling_loop net c0 tr inps))"
  proof
    assume a: "\<forall>inp \<in> set inps. \<forall>r \<in> set (answer_recommended (poll_answer inp)). 1 \<le> r"
    have "\<forall>r \<in> set (recommended la). 1 \<le> r"
      using a ls by auto
    then show "1 \<le> current_poll_interval (fst (polling_loop net c0 tr inps))"
      using run_lower [OF lr b i l] by blast
  qed
  show ?thesis using 1 2 3 4 by blast
qed

theorem poll_interval_bounds_witness:
  "start (init_client 5) (Reg_Reply 200 (Some ''s1'')) = Inr client0
   \<and> run (At_Loop, client0) [Update, Idle (Some 10), Update]
       = Some (At_Loop, client0\<lparr>current_poll_interval := 8\<rparr>)
   \<and> recommended [Update, Idle (Some 10), Update] = [10]
   \<and> current_poll_interval (client0\<lparr>current_poll_interval := 8\<rparr>) \<le> 30
   \<and> 1 \<le> current_poll_interval (client0\<lparr>current_poll_interval := 8\<rparr>)
   \<and> answer_recommended (poll_answer (round0 (idle_answer (Some 10)))) = [10]
   \<and> current_poll_interval (fst (polling_loop net_ok client0 [] [round0 (idle_answer (Some 10))])) \<le> 30
   \<and> 1 \<le> current_poll_interval (fst (polling_loop net_ok client0 [] [round0 (idle_answer (Some 10))]))"
proof -
  have h1: "start (init_client 5) (Reg_Reply 200 (Some ''s1'')) = Inr client0"
    by (rule start_client0)
  have h2: "run (At_Loop, client0) [Update, Idle (Some 10), Update]
       = Some (At_Loop, client0\<lparr>current_poll_interval := 8\<rparr>)"
    by (simp add: client0_def init_client_def update_poll_interval_def adopt_recommended_def
          has_session_def)
  have r3: "recommended [Update, Idle (Some 10), Update] = [10]"
    by simp
  have r4: "answer_recommended (poll_answer (round0 (idle_answer (Some 10)))) = [10]"
    by (simp add: round0_def idle_answer_def)
  have h3: "\<forall>r \<in> set (recommended [Update, Idle (Some 10), Update]). (1::rat) \<le> r"
    by simp
  have h4: "\<forall>inp \<in> set [round0 (idle_answer (Some 10))].
              \<forall>r \<in> set (answer_recommended (poll_answer inp)). 1 \<le> r"
    by (simp add: round0_def idle_answer_def)
  show ?thesis
    using h1 h2 r3 r4 h3 h4
      poll_interval_bounds [OF h1 h2, of net_ok "[]" "[round0 (idle_answer (Some 10))]"]
    by blast
qed

subsection \<open>Bounds of the load\<close>

text \<open>
  C3, as stated, fails: nothing compares the load with the cap before a request
  begins. A worker built with the cap 0 that is assigned a request has the load 1 while
  it processes it.
\<close>

theorem load_exceeds_cap_counterexample:
  "start (init_client 0) (Reg_Reply 200 (Some ''s1'')) = Inr client_cap0
   \<and> run (At_Loop, client_cap0) [Update, Begin]
       = Some (In_Request, client_cap0\<lparr>current_load := 1, total_requests := 1,
                                          current_poll_interval := 15 / 2\<rparr>)
   \<and> \<not> current_load (client_cap0\<lparr>current_load := 1, total_requests := 1,
                                    current_poll_interval := 15 / 2\<rparr>)
         \<le> max_concurrent (client_cap0\<lparr>current_load := 1, total_requests := 1,
                                          current_poll_interval := 15 / 2\<rparr>)"
  by (simp add: start_def register_def client_cap0_def init_client_def has_session_def
        update_poll_interval_def begin_request_def)

text \<open>
  C3, amended. For a worker built with a cap of at least 1, in every state reached by
  any sequence of actions the load is 0 or 1 and within the cap, and it is 0 at the end
  of any run of the polling loop. \<open>process_request\<close> increments the load once when the
  request begins and decrements it once when the request ends, by success, failure or
  cancellation alike, so the load after it is the load before it; a request without an
  id is refused before the increment.
\<close>

theorem load_within_bounds:
  assumes "start (init_client mc) rr = Inr c0" and "run (At_Loop, c0) acts = Some (p, c)"
    and "1 \<le> mc"
  shows "0 \<le> current_load c \<and> current_load c \<le> 1 \<and> current_load c \<le> max_concurrent c
         \<and> current_load (fst (polling_loop net c0 tr inps)) = 0
         \<and> current_load (begin_request c') = current_load c' + 1
         \<and> current_load (release c') = current_load c' - 1
         \<and> (request_id req = None \<longrightarrow> fst (process_request net c' tr' req t0 t1 cancel) = c')
         \<and> (request_id req \<noteq> None \<longrightarrow>
               fst (process_request net c' tr' req t0 t1 cancel) = release (begin_request c')
               \<or> fst (process_request net c' tr' req t0 t1 cancel)
                  = release (record_success (begin_request c') ((t1 - t0) * 1000)))
         \<and> current_load (fst (process_request net c' tr' req t0 t1 cancel)) = current_load c'"
proof -
  from start_state [OF assms(1)]
  have l0: "current_load c0 = (if At_Loop = At_Loop then 0 else 1)" and m: "max_concurrent c0 = mc"
    by simp_all
  from run_load [OF assms(2) l0]
  have lc: "current_load c = (if p = At_Loop then 0 else 1)" and mc: "max_concurrent c = mc"
    using m by simp_all
  from polling_loop_is_run [of c0 net tr inps]
  obtain la where lr: "run (At_Loop, c0) la = Some (At_Loop, fst (polling_loop net c0 tr inps))"
    by blast
  have 1: "0 \<le> current_load c \<and> current_load c \<le> 1 \<and> current_load c \<le> max_concurrent c"
    using lc mc assms(3) by (cases p) simp_all
  have 2: "current_load (fst (polling_loop net c0 tr inps)) = 0"
    using run_load [OF lr l0] by simp
  have 3: "current_load (begin_request c') = current_load c' + 1"
    "current_load (release c') = current_load c' - 1"
    by (simp_all add: begin_request_def release_def)
  note 4 = process_request_state [of req net c' tr' t0 t1 cancel]
  have 5: "current_load (fst (process_request net c' tr' req t0 t1 cancel)) = current_load c'"
    using 4 by (auto simp: begin_request_def release_def record_success_def)
  have 6: "request_id req = None \<longrightarrow> fst (process_request net c' tr' req t0 t1 cancel) = c'"
    using 4 by auto
  have 7: "request_id req \<noteq> None \<longrightarrow>
               fst (process_request net c' tr' req t0 t1 cancel) = release (begin_request c')
               \<or> fst (process_request net c' tr' req t0 t1 cancel)
                  = release (record_success (begin_request c') ((t1 - t0) * 1000))"
    using 4 by auto
  from 1 2 3 6 7 5 show ?thesis by (intro conjI) simp_all
qed

theorem load_within_bounds_witness:
  "start (init_client 5) (Reg_Reply 200 (Some ''s1'')) = Inr client0
   \<and> run (At_Loop, client0) [Update, Begin] = Some (In_Request, begin_request (update_poll_interval client0))
   \<and> (1::int) \<le> 5
   \<and> current_load (begin_request (update_poll_interval client0)) = 1
   \<and> max_concurrent (begin_request (update_poll_interval client0)) = 5
   \<and> current_load (fst (polling_loop net_ok client0 [] [round0 (assigned_answer req0)])) = 0
   \<and> current_load (fst (process_request net_ok client0 [] req0 10 12 (Some 3))) = 0"
proof -
  have h1: "start (init_client 5) (Reg_Reply 200 (Some ''s1'')) = Inr client0"
    by (rule start_client0)
  have h2: "run (At_Loop, client0) [Update, Begin]
      = Some (In_Request, begin_request (update_poll_interval client0))"
    using has_session_client0 by simp
  have h3: "(1::int) \<le> 5" by simp
  have m: "max_concurrent (begin_request (update_poll_interval client0)) = 5"
    "current_load (begin_request (update_poll_interval client0)) = 1"
    "current_load client0 = 0"
    by (simp_all add: begin_request_def client0_def init_client_def)
  show ?thesis
    using h1 h2 h3 m
      load_within_bounds [OF h1 h2 h3, of net_ok "[]" "[round0 (assigned_answer req0)]"
        client0 req0 "[]" 10 12 "Some 3"]
    by simp
qed

end
